theory Spec2Isabelle
  imports Main "HOL-Library.Word"
begin

section \<open>The LE ACL manager facade (system/gd/hci/facade/le_acl_manager_facade.cc)\<close>

text \<open>
  The facade service is embedded as pure functions over a record of its member variables.
  Each RPC handler and each callback of \<^verbatim>\<open>LeAclManagerFacadeService\<close> takes the state and
  returns the new one. Assertion failures and undefined behaviour of the C++ (an index past
  the end of a vector, a null pointer dereference) are values of the type \<open>fault\<close>.
  The mutex, the blocking of an RPC thread in \<^verbatim>\<open>RunLoop\<close> and in \<^verbatim>\<open>future.wait()\<close>
  are not part of the embedding: every function below is one atomic step. The destructor,
  \<^verbatim>\<open>FetchAclData\<close> and the module glue at the end of the file are not embedded.
\<close>

subsection \<open>Data\<close>

type_synonym uint8 = "8 word"
type_synonym uint16 = "16 word"
type_synonym uint32 = "32 word"

text \<open>Modelled from the spec: hci_packets.h is not among the sources. \<^verbatim>\<open>ErrorCode\<close>,
  \<^verbatim>\<open>DisconnectReason\<close> and \<^verbatim>\<open>AddressType\<close> are 8-bit enumerations, so a
  \<^verbatim>\<open>static_cast\<close> between them keeps the number (the spec's mapped disconnect reason);
  the numbers of the two enumerators are those of the HCI specification. \<^verbatim>\<open>Role\<close> and
  \<^verbatim>\<open>ClockAccuracy\<close> are enumerations.\<close>

type_synonym error_code = uint8
type_synonym disconnect_reason = uint8
type_synonym address_type = uint8

definition SUCCESS :: error_code where
  "SUCCESS = 0x00"

definition REMOTE_USER_TERMINATED_CONNECTION :: disconnect_reason where
  "REMOTE_USER_TERMINATED_CONNECTION = 0x13"

datatype role = MASTER | SLAVE

datatype clock_accuracy =
  PPM_500 | PPM_250 | PPM_150 | PPM_100 | PPM_75 | PPM_50 | PPM_30 | PPM_20

text \<open>Modelled from the spec: the classes \<^verbatim>\<open>Address\<close> and \<^verbatim>\<open>AddressWithType\<close> are not
  among the sources. A peer identity is an address (six bytes) and an address type.\<close>

type_synonym address = "uint8 list"

record address_with_type =
  awt_address :: address
  awt_address_type :: address_type

datatype status_code = OK | INVALID_ARGUMENT | RESOURCE_EXHAUSTED

text \<open>What a handler gives back to the RPC layer: a status, or the stream of the event
  queue at an index of \<^verbatim>\<open>per_connection_events_\<close> (the handler is inside \<^verbatim>\<open>RunLoop\<close>).\<close>

datatype reply = Status status_code | RunLoop nat

datatype fault = AssertFailed | OutOfBounds | NullDeref

text \<open>Modelled from the spec: the protobuf messages of the RPC surface are not among the
  sources. \<^verbatim>\<open>LeConnectionMsg\<close> is a peer address as a string and an address type,
  \<^verbatim>\<open>LeAclData\<close> a handle and a payload, \<^verbatim>\<open>LeHandleMsg\<close> a handle. Protobuf has no
  integer narrower than 32 bits; \<^verbatim>\<open>std::map<uint16_t, _>::find\<close> and the
  \<^verbatim>\<open>static_cast\<close> to \<^verbatim>\<open>AddressType\<close> narrow them.\<close>

record le_connection_msg =
  msg_address :: string
  msg_address_type :: uint32

record le_acl_data =
  acl_handle :: uint32
  acl_payload :: "uint8 list"

text \<open>Modelled from the spec: the packet builders and the serialiser are not among the
  sources. A \<^verbatim>\<open>LeConnectionEvent\<close> carries a serialised packet; here it is the packet with
  the fields that \<^verbatim>\<open>LeConnectionCompleteBuilder::Create\<close> or
  \<^verbatim>\<open>DisconnectBuilder::Create\<close> was given, in the order of the call.\<close>

datatype le_connection_event =
  LeConnectionComplete error_code uint16 role address_type address uint16 uint16 uint16
    clock_accuracy
| DisconnectPacket uint16 disconnect_reason

text \<open>Modelled from the spec: \<^verbatim>\<open>GrpcEventQueue\<close> is not among the sources. The spec's
  Event Channel buffers the events and replays them in order to the listener: a named
  list, to which \<^verbatim>\<open>OnIncomingEvent\<close> appends.\<close>

record event_queue =
  queue_name :: string
  queue_events :: "le_connection_event list"

definition new_queue :: "string \<Rightarrow> event_queue" where
  "new_queue name = \<lparr>queue_name = name, queue_events = []\<rparr>"

definition OnIncomingEvent :: "event_queue \<Rightarrow> le_connection_event \<Rightarrow> event_queue" where
  "OnIncomingEvent q e = q\<lparr>queue_events := queue_events q @ [e]\<rparr>"

text \<open>Modelled from the spec: the class \<^verbatim>\<open>LeAclConnection\<close> is not among the sources.
  The object, as far as the facade uses it: the callbacks registered on it (each with the
  arguments bound by \<^verbatim>\<open>common::Bind\<close>; registering replaces, unregistering clears),
  whether \<^verbatim>\<open>Finish\<close> was called, the disconnect requests it was given, and the two ends of
  its ACL queue.\<close>

record le_acl_connection =
  dequeue_callback :: "uint16 option"
  enqueue_callback :: "le_acl_data option"
  disconnect_callback :: "uint32 option"
  management_callbacks :: bool
  finished :: bool
  disconnect_requests :: "disconnect_reason list"
  incoming :: "uint8 list list"
  outgoing :: "uint8 list list"

definition new_connection :: le_acl_connection where
  "new_connection = \<lparr>dequeue_callback = None, enqueue_callback = None,
     disconnect_callback = None, management_callbacks = False, finished = False,
     disconnect_requests = [], incoming = [], outgoing = []\<rparr>"

text \<open>The service. \<^verbatim>\<open>acl_connections_\<close> holds shared pointers, so the registry maps a
  handle to the identity of a connection object and the objects live in a store.
  \<open>create_le_connection_calls\<close> records the calls of \<^verbatim>\<open>acl_manager_->CreateLeConnection\<close>.
  The sequence number is a \<^verbatim>\<open>uint32_t\<close>; the size of the vector of event queues is a
  \<^verbatim>\<open>size_t\<close>, here a natural number, and the comparison of the two is made in
  \<^verbatim>\<open>size_t\<close>.\<close>

record facade =
  create_le_connection_calls :: "address_with_type list"
  connection_objects :: "nat \<Rightarrow> le_acl_connection"
  acl_connections :: "uint16 \<rightharpoonup> nat"
  pending_acl_data :: "le_acl_data list"
  per_connection_events :: "event_queue list"
  current_connection_request :: uint32

definition init_facade :: facade where
  "init_facade = \<lparr>create_le_connection_calls = [],
     connection_objects = (\<lambda>c. new_connection),
     acl_connections = Map.empty, pending_acl_data = [],
     per_connection_events = [], current_connection_request = 0\<rparr>"

subsection \<open>Helpers\<close>

text \<open>\<^verbatim>\<open>std::to_string\<close> of an unsigned number: its decimal digits.\<close>

definition digit_char :: "nat \<Rightarrow> char" where
  "digit_char d = char_of (48 + d)"

function to_string :: "nat \<Rightarrow> string" where
  "to_string n = (if n < 10 then [digit_char n]
                  else to_string (n div 10) @ [digit_char (n mod 10)])"
  by pat_completeness auto
termination
  by (relation "measure id") auto

declare to_string.simps [simp del]

text \<open>\<^verbatim>\<open>connection->member\<close> on the object \<open>c\<close> of the store.\<close>

definition update_connection ::
  "nat \<Rightarrow> (le_acl_connection \<Rightarrow> le_acl_connection) \<Rightarrow> facade \<Rightarrow> facade" where
  "update_connection c f s =
     s\<lparr>connection_objects := (connection_objects s)(c := f (connection_objects s c))\<rparr>"

text \<open>\<^verbatim>\<open>std::map::emplace\<close> inserts only if the key is not in the map.\<close>

definition emplace :: "('k \<rightharpoonup> 'v) \<Rightarrow> 'k \<Rightarrow> 'v \<Rightarrow> ('k \<rightharpoonup> 'v)" where
  "emplace m k v = (case m k of None \<Rightarrow> m(k \<mapsto> v) | Some old \<Rightarrow> m)"

text \<open>\<^verbatim>\<open>per_connection_events_[i]->OnIncomingEvent(e)\<close>. \<^verbatim>\<open>operator[]\<close> of a vector checks
  nothing: an index past the end is undefined behaviour.\<close>

definition push_event ::
  "nat \<Rightarrow> le_connection_event \<Rightarrow> facade \<Rightarrow> fault + facade" where
  "push_event i e s =
     (if i < length (per_connection_events s)
      then Inr (s\<lparr>per_connection_events :=
                  (per_connection_events s)[i := OnIncomingEvent (per_connection_events s ! i) e]\<rparr>)
      else Inl OutOfBounds)"

subsection \<open>The handle allocator\<close>

text \<open>\<^verbatim>\<open>static inline uint16_t to_handle(uint32_t current_request)\<close>: the sum is computed
  in \<^verbatim>\<open>uint32_t\<close>, the remainder is converted to \<^verbatim>\<open>uint16_t\<close>.\<close>

definition to_handle :: "uint32 \<Rightarrow> uint16" where
  "to_handle current_request = ucast ((current_request + 0x10) mod 0xe00)"

subsection \<open>RPC handlers\<close>

text \<open>\<^verbatim>\<open>Address::FromString\<close> is outside this file: it is the parameter \<open>from_string\<close>,
  \<open>None\<close> where it returns false.\<close>

definition CreateConnection ::
  "(string \<Rightarrow> address option) \<Rightarrow> facade \<Rightarrow> le_connection_msg \<Rightarrow> fault + (reply \<times> facade)" where
  "CreateConnection from_string s request =
     (case from_string (msg_address request) of
        None \<Rightarrow> Inl AssertFailed
      | Some peer_address \<Rightarrow>
          let peer = \<lparr>awt_address = peer_address,
                      awt_address_type = ucast (msg_address_type request)\<rparr>;
              s1 = s\<lparr>create_le_connection_calls := create_le_connection_calls s @ [peer]\<rparr>
          in if length (per_connection_events s1) > unat (current_connection_request s1)
             then Inr (Status RESOURCE_EXHAUSTED, s1)
             else
               let s2 = s1\<lparr>per_connection_events := per_connection_events s1 @
                            [new_queue (''connection attempt '' @
                               to_string (unat (current_connection_request s1)))]\<rparr>
               in if unat (current_connection_request s2) < length (per_connection_events s2)
                  then Inr (RunLoop (unat (current_connection_request s2)), s2)
                  else Inl OutOfBounds)"

definition Disconnect :: "facade \<Rightarrow> uint32 \<Rightarrow> reply \<times> facade" where
  "Disconnect s handle =
     (case acl_connections s (ucast handle) of
        None \<Rightarrow> (Status INVALID_ARGUMENT, s)
      | Some connection \<Rightarrow>
          (Status OK,
           update_connection connection
             (\<lambda>c. c\<lparr>disconnect_requests :=
                      disconnect_requests c @ [REMOTE_USER_TERMINATED_CONNECTION]\<rparr>) s))"

definition FetchIncomingConnection :: "facade \<Rightarrow> fault + (reply \<times> facade)" where
  "FetchIncomingConnection s =
     (if length (per_connection_events s) > unat (current_connection_request s)
      then Inr (Status RESOURCE_EXHAUSTED, s)
      else
        let s2 = s\<lparr>per_connection_events := per_connection_events s @
                     [new_queue (''incoming connection '' @
                        to_string (unat (current_connection_request s)))]\<rparr>
        in if unat (current_connection_request s2) < length (per_connection_events s2)
           then Inr (RunLoop (unat (current_connection_request s2)), s2)
           else Inl OutOfBounds)"

text \<open>\<^verbatim>\<open>SendAclData\<close> registers \<^verbatim>\<open>enqueue_packet\<close>, bound to the request, on the queue end
  of the connection, and returns OK once that callback has run.\<close>

definition SendAclData :: "facade \<Rightarrow> le_acl_data \<Rightarrow> reply \<times> facade" where
  "SendAclData s request =
     (case acl_connections s (ucast (acl_handle request)) of
        None \<Rightarrow> (Status INVALID_ARGUMENT, s)
      | Some connection \<Rightarrow>
          (Status OK,
           update_connection connection (\<lambda>c. c\<lparr>enqueue_callback := Some request\<rparr>) s))"

text \<open>\<^verbatim>\<open>acl_connections_[handle]\<close> of a handle that is not in the map is a null pointer.\<close>

definition enqueue_packet :: "facade \<Rightarrow> le_acl_data \<Rightarrow> fault + facade" where
  "enqueue_packet s request =
     (case acl_connections s (ucast (acl_handle request)) of
        None \<Rightarrow> Inl NullDeref
      | Some connection \<Rightarrow>
          Inr (update_connection connection
                 (\<lambda>c. c\<lparr>enqueue_callback := None,
                        outgoing := outgoing c @ [acl_payload request]\<rparr>) s))"

subsection \<open>Callbacks\<close>

text \<open>\<^verbatim>\<open>TryDequeue\<close> on an empty queue returns a null pointer.\<close>

definition on_incoming_acl :: "facade \<Rightarrow> nat \<Rightarrow> uint16 \<Rightarrow> fault + facade" where
  "on_incoming_acl s connection handle =
     (case incoming (connection_objects s connection) of
        [] \<Rightarrow> Inl NullDeref
      | packet # rest \<Rightarrow>
          let s1 = update_connection connection (\<lambda>c. c\<lparr>incoming := rest\<rparr>) s;
              acl_data = \<lparr>acl_handle = ucast handle, acl_payload = packet\<rparr>
          in Inr (s1\<lparr>pending_acl_data := pending_acl_data s1 @ [acl_data]\<rparr>))"

definition on_disconnect :: "facade \<Rightarrow> nat \<Rightarrow> uint32 \<Rightarrow> error_code \<Rightarrow> fault + facade" where
  "on_disconnect s connection entry code =
     (let s1 = update_connection connection
                 (\<lambda>c. c\<lparr>dequeue_callback := None, finished := True\<rparr>) s
      in push_event (unat entry) (DisconnectPacket (to_handle entry) code) s1)"

definition OnLeConnectSuccess :: "facade \<Rightarrow> address_with_type \<Rightarrow> nat \<Rightarrow> fault + facade" where
  "OnLeConnectSuccess s address_with_type connection =
     (let addr = awt_address address_with_type;
          s1 = s\<lparr>acl_connections :=
                   emplace (acl_connections s) (to_handle (current_connection_request s))
                     connection\<rparr>;
          s2 = update_connection connection
                 (\<lambda>c. c\<lparr>dequeue_callback := Some (to_handle (current_connection_request s1)),
                        disconnect_callback := Some (current_connection_request s1),
                        management_callbacks := True\<rparr>) s1;
          success = LeConnectionComplete SUCCESS (to_handle (current_connection_request s2))
                      MASTER (awt_address_type address_with_type) addr 1 2 3 PPM_20
      in case push_event (unat (current_connection_request s2)) success s2 of
           Inl f \<Rightarrow> Inl f
         | Inr s3 \<Rightarrow>
             Inr (s3\<lparr>current_connection_request := current_connection_request s3 + 1\<rparr>))"

definition OnLeConnectFail :: "facade \<Rightarrow> address_with_type \<Rightarrow> error_code \<Rightarrow> fault + facade" where
  "OnLeConnectFail s address reason =
     (let fail = LeConnectionComplete reason 0 MASTER (awt_address_type address)
                   (awt_address address) 0 0 0 PPM_20
      in case push_event (unat (current_connection_request s)) fail s of
           Inl f \<Rightarrow> Inl f
         | Inr s1 \<Rightarrow>
             Inr (s1\<lparr>current_connection_request := current_connection_request s1 + 1\<rparr>))"

definition OnConnectionUpdate :: "facade \<Rightarrow> uint16 \<Rightarrow> uint16 \<Rightarrow> uint16 \<Rightarrow> facade" where
  "OnConnectionUpdate s connection_interval connection_latency supervision_timeout = s"

subsection \<open>Runs of the service\<close>

text \<open>What can happen to the service: an RPC arrives, the connection manager reports the
  outcome of a connection attempt, or a connection object runs a callback that the facade
  registered on it (with the arguments that were bound; a callback that is not registered
  does not run; the disconnect callback is bound once and runs once).\<close>

datatype action =
  CreateConnection_call le_connection_msg
| Disconnect_call uint32
| FetchIncomingConnection_call
| SendAclData_call le_acl_data
| ConnectSuccess address_with_type nat
| ConnectFail address_with_type error_code
| ConnectionUpdate uint16 uint16 uint16
| PacketArrives nat "uint8 list"
| DequeueReady nat
| EnqueueReady nat
| Disconnected nat error_code

fun step :: "(string \<Rightarrow> address option) \<Rightarrow> facade \<Rightarrow> action \<Rightarrow> fault + facade" where
  "step fs s (CreateConnection_call request) = map_sum id snd (CreateConnection fs s request)"
| "step fs s (Disconnect_call handle) = Inr (snd (Disconnect s handle))"
| "step fs s FetchIncomingConnection_call = map_sum id snd (FetchIncomingConnection s)"
| "step fs s (SendAclData_call request) = Inr (snd (SendAclData s request))"
| "step fs s (ConnectSuccess a connection) = OnLeConnectSuccess s a connection"
| "step fs s (ConnectFail a reason) = OnLeConnectFail s a reason"
| "step fs s (ConnectionUpdate i l t) = Inr (OnConnectionUpdate s i l t)"
| "step fs s (PacketArrives connection packet) =
     Inr (update_connection connection (\<lambda>c. c\<lparr>incoming := incoming c @ [packet]\<rparr>) s)"
| "step fs s (DequeueReady connection) =
     (case dequeue_callback (connection_objects s connection) of
        None \<Rightarrow> Inr s
      | Some handle \<Rightarrow> on_incoming_acl s connection handle)"
| "step fs s (EnqueueReady connection) =
     (case enqueue_callback (connection_objects s connection) of
        None \<Rightarrow> Inr s
      | Some request \<Rightarrow> enqueue_packet s request)"
| "step fs s (Disconnected connection code) =
     (case disconnect_callback (connection_objects s connection) of
        None \<Rightarrow> Inr s
      | Some entry \<Rightarrow>
          on_disconnect
            (update_connection connection (\<lambda>c. c\<lparr>disconnect_callback := None\<rparr>) s)
            connection entry code)"

fun run :: "(string \<Rightarrow> address option) \<Rightarrow> facade \<Rightarrow> action list \<Rightarrow> fault + facade" where
  "run fs s [] = Inr s"
| "run fs s (a # as) = (case step fs s a of Inl f \<Rightarrow> Inl f | Inr s' \<Rightarrow> run fs s' as)"

subsection \<open>Requests issued one at a time\<close>

text \<open>A round is one outgoing request and the outcome that the connection manager reports
  for it before the next request is issued.\<close>

datatype outcome = Succeeds address_with_type nat | Fails address_with_type error_code

fun round_actions :: "le_connection_msg \<times> outcome \<Rightarrow> action list" where
  "round_actions (request, Succeeds a connection) =
     [CreateConnection_call request, ConnectSuccess a connection]"
| "round_actions (request, Fails a reason) =
     [CreateConnection_call request, ConnectFail a reason]"

definition rounds :: "(le_connection_msg \<times> outcome) list \<Rightarrow> action list" where
  "rounds rs = concat (map round_actions rs)"

text \<open>The event that a round at sequence number \<open>seq\<close> leaves in its queue.\<close>

fun outcome_event :: "outcome \<Rightarrow> uint32 \<Rightarrow> le_connection_event" where
  "outcome_event (Succeeds a connection) seq =
     LeConnectionComplete SUCCESS (to_handle seq) MASTER (awt_address_type a) (awt_address a)
       1 2 3 PPM_20"
| "outcome_event (Fails a reason) seq =
     LeConnectionComplete reason 0 MASTER (awt_address_type a) (awt_address a) 0 0 0 PPM_20"

fun event_handle :: "le_connection_event \<Rightarrow> uint16" where
  "event_handle (LeConnectionComplete status handle r t a i l to ca) = handle"
| "event_handle (DisconnectPacket handle reason) = handle"

text \<open>The handle in the first event on the stream of the \<open>n\<close>-th request (\<open>n\<close> from 1).\<close>

definition delivered_handle :: "fault + facade \<Rightarrow> nat \<Rightarrow> uint16 option" where
  "delivered_handle r n =
     (case r of
        Inl f \<Rightarrow> None
      | Inr s \<Rightarrow>
          if 0 < n \<and> n \<le> length (per_connection_events s)
          then (case queue_events (per_connection_events s ! (n - 1)) of
                  [] \<Rightarrow> None
                | e # es \<Rightarrow> Some (event_handle e))
          else None)"

definition registered :: "fault + facade \<Rightarrow> uint16 \<Rightarrow> nat option" where
  "registered r h = (case r of Inl f \<Rightarrow> None | Inr s \<Rightarrow> acl_connections s h)"

definition sequence_number :: "fault + facade \<Rightarrow> uint32 option" where
  "sequence_number r =
     (case r of Inl f \<Rightarrow> None | Inr s \<Rightarrow> Some (current_connection_request s))"

definition log_length :: "fault + facade \<Rightarrow> nat option" where
  "log_length r =
     (case r of Inl f \<Rightarrow> None | Inr s \<Rightarrow> Some (length (per_connection_events s)))"

text \<open>The length of the request event log against the sequence number.\<close>

definition facade_inv :: "facade \<Rightarrow> bool" where
  "facade_inv s \<longleftrightarrow>
     length (per_connection_events s) = unat (current_connection_request s) \<or>
     length (per_connection_events s) = unat (current_connection_request s) + 1"

subsection \<open>Concrete inputs\<close>

text \<open>A parser that knows one address, the request for that peer, and the state of the
  service after the first request was admitted.\<close>

definition test_from_string :: "string \<Rightarrow> address option" where
  "test_from_string str =
     (if str = ''AA:BB:CC:DD:EE:FF'' then Some [0xAA, 0xBB, 0xCC, 0xDD, 0xEE, 0xFF] else None)"

definition test_request :: le_connection_msg where
  "test_request = \<lparr>msg_address = ''AA:BB:CC:DD:EE:FF'', msg_address_type = 0\<rparr>"

definition test_peer :: address_with_type where
  "test_peer = \<lparr>awt_address = [0xAA, 0xBB, 0xCC, 0xDD, 0xEE, 0xFF], awt_address_type = 0\<rparr>"

definition success_round :: "nat \<Rightarrow> le_connection_msg \<times> outcome" where
  "success_round connection = (test_request, Succeeds test_peer connection)"

definition outstanding_facade :: facade where
  "outstanding_facade = init_facade
     \<lparr>create_le_connection_calls := [test_peer],
      per_connection_events := [new_queue (''connection attempt '' @ to_string 0)]\<rparr>"

text \<open>The state after the connection manager reported success for that first request, with
  the connection object 0.\<close>

definition connected_facade :: facade where
  "connected_facade = outstanding_facade
     \<lparr>connection_objects := (\<lambda>c. new_connection)
        (0 := new_connection\<lparr>dequeue_callback := Some 0x10, disconnect_callback := Some 0,
                              management_callbacks := True\<rparr>),
      acl_connections := [0x10 \<mapsto> 0],
      per_connection_events :=
        [\<lparr>queue_name = ''connection attempt '' @ to_string 0,
          queue_events = [LeConnectionComplete SUCCESS 0x10 MASTER 0
                            [0xAA, 0xBB, 0xCC, 0xDD, 0xEE, 0xFF] 1 2 3 PPM_20]\<rparr>],
      current_connection_request := 1\<rparr>"

text \<open>Every registered disconnect callback is bound to a sequence number that has an event
  queue and whose handle is in the registry.\<close>

definition callbacks_inv :: "facade \<Rightarrow> bool" where
  "callbacks_inv s \<longleftrightarrow>
     (\<forall>c e. disconnect_callback (connection_objects s c) = Some e \<longrightarrow>
        unat e < length (per_connection_events s) \<and> acl_connections s (to_handle e) \<noteq> None)"

section \<open>Properties\<close>

subsection \<open>Steps and runs\<close>

lemma run_append:
  "run fs s (xs @ ys) = (case run fs s xs of Inl f \<Rightarrow> Inl f | Inr s' \<Rightarrow> run fs s' ys)"
  by (induction xs arbitrary: s) (auto split: sum.splits)

lemma unat_succ_le: "unat (x + 1) \<le> unat x + 1" for x :: uint32
  by (simp add: unat_word_ariths)

lemma unat_succ_eq: "unat x + 1 < 2 ^ 32 \<Longrightarrow> unat (x + 1) = unat x + 1" for x :: uint32
  by (simp add: unat_word_ariths)

lemmas facade_defs = CreateConnection_def Disconnect_def FetchIncomingConnection_def
  SendAclData_def enqueue_packet_def on_incoming_acl_def on_disconnect_def
  OnLeConnectSuccess_def OnLeConnectFail_def OnConnectionUpdate_def push_event_def
  update_connection_def

lemma step_length_mono:
  "step fs s a = Inr s' \<Longrightarrow> length (per_connection_events s) \<le> length (per_connection_events s')"
  by (cases a) (auto simp: facade_defs Let_def split: option.splits if_splits list.splits sum.splits)

lemma step_counter_le:
  "step fs s a = Inr s' \<Longrightarrow>
   unat (current_connection_request s) \<le> length (per_connection_events s) \<Longrightarrow>
   unat (current_connection_request s') \<le> length (per_connection_events s')"
  using unat_succ_le [of "current_connection_request s"]
  by (cases a) (auto simp: facade_defs Let_def split: option.splits if_splits list.splits sum.splits)

lemma step_registry_keeps:
  "step fs s a = Inr s' \<Longrightarrow> acl_connections s h = Some c \<Longrightarrow> acl_connections s' h = Some c"
  by (cases a) (auto simp: facade_defs emplace_def Let_def split: option.splits if_splits list.splits sum.splits)

lemma step_facade_inv:
  "step fs s a = Inr s' \<Longrightarrow> length (per_connection_events s') < 2 ^ 32 \<Longrightarrow>
   facade_inv s \<Longrightarrow> facade_inv s'"
  using unat_succ_eq [of "current_connection_request s"]
  by (cases a) (auto simp: facade_inv_def facade_defs Let_def split: option.splits if_splits list.splits sum.splits)

lemma round_step:
  assumes "fs (msg_address (fst r)) \<noteq> None"
    and "length (per_connection_events s) = unat (current_connection_request s)"
  shows "\<exists>s' q. run fs s (round_actions r) = Inr s' \<and>
           per_connection_events s' = per_connection_events s @ [q] \<and>
           queue_events q = [outcome_event (snd r) (current_connection_request s)] \<and>
           current_connection_request s' = current_connection_request s + 1"
proof -
  obtain request out where r: "r = (request, out)" by (cases r)
  from assms(1) r obtain pa where pa: "fs (msg_address request) = Some pa" by auto
  note idle = assms(2) [symmetric]
  show ?thesis
    using pa unfolding r
    by (cases out)
      (simp_all add: idle CreateConnection_def OnLeConnectSuccess_def OnLeConnectFail_def
        push_event_def update_connection_def OnIncomingEvent_def new_queue_def Let_def)
qed

lemma rounds_state:
  assumes "\<forall>r\<in>set rs. fs (msg_address (fst r)) \<noteq> None"
    and "length (per_connection_events s) = unat (current_connection_request s)"
    and "unat (current_connection_request s) + length rs \<le> 2 ^ 32"
  shows "\<exists>s'. run fs s (rounds rs) = Inr s' \<and>
           length (per_connection_events s') = length (per_connection_events s) + length rs \<and>
           current_connection_request s' = current_connection_request s + of_nat (length rs) \<and>
           (\<forall>i<length rs.
              queue_events (per_connection_events s' ! (length (per_connection_events s) + i)) =
                [outcome_event (snd (rs ! i)) (current_connection_request s + of_nat i)])"
  using assms
proof (induction rs rule: rev_induct)
  case Nil
  then show ?case by (simp add: rounds_def)
next
  case (snoc r rs)
  let ?k = "length (per_connection_events s)"
  let ?c = "current_connection_request s"
  from snoc obtain s1 where
    run1: "run fs s (rounds rs) = Inr s1" and
    len1: "length (per_connection_events s1) = ?k + length rs" and
    cur1: "current_connection_request s1 = ?c + of_nat (length rs)" and
    ev1: "\<forall>i<length rs. queue_events (per_connection_events s1 ! (?k + i)) =
            [outcome_event (snd (rs ! i)) (?c + of_nat i)]"
    by auto
  have lt: "unat ?c + length rs < 2 ^ 32" using snoc.prems(3) by simp
  have "unat (?c + of_nat (length rs)) = (unat ?c + length rs) mod 2 ^ 32"
    by (simp add: unat_word_ariths unat_of_nat mod_add_right_eq)
  with lt have un1: "unat (current_connection_request s1) = unat ?c + length rs"
    by (simp add: cur1)
  have idle1: "length (per_connection_events s1) = unat (current_connection_request s1)"
    using len1 un1 snoc.prems(2) by simp
  have wf: "fs (msg_address (fst r)) \<noteq> None" using snoc.prems(1) by simp
  from round_step [of fs r s1, OF wf idle1] obtain s2 q where
    run2: "run fs s1 (round_actions r) = Inr s2" and
    ev2: "per_connection_events s2 = per_connection_events s1 @ [q]" and
    q: "queue_events q = [outcome_event (snd r) (current_connection_request s1)]" and
    cur2: "current_connection_request s2 = current_connection_request s1 + 1"
    by blast
  have run: "run fs s (rounds (rs @ [r])) = Inr s2"
    using run1 run2 by (simp add: rounds_def run_append)
  have len2: "length (per_connection_events s2) = ?k + length (rs @ [r])"
    by (simp add: ev2 len1)
  have c2: "current_connection_request s2 = ?c + of_nat (length (rs @ [r]))"
    by (simp add: cur2 cur1)
  have "queue_events (per_connection_events s2 ! (?k + i)) =
          [outcome_event (snd ((rs @ [r]) ! i)) (?c + of_nat i)]"
    if "i < length (rs @ [r])" for i
  proof (cases "i < length rs")
    case True
    then show ?thesis using ev1 len1 by (simp add: ev2 nth_append)
  next
    case False
    with that have "i = length rs" by simp
    then show ?thesis using len1 q cur1 by (simp add: ev2 nth_append)
  qed
  with run len2 c2 show ?case by blast
qed

lemma run_registry_keeps:
  "run fs s as = Inr s' \<Longrightarrow> acl_connections s h = Some c \<Longrightarrow> acl_connections s' h = Some c"
proof (induction as arbitrary: s)
  case Nil
  then show ?case by simp
next
  case (Cons a as)
  then show ?case
    by (auto split: sum.splits dest: step_registry_keeps)
qed

lemma run_counter_le:
  "run fs s as = Inr s' \<Longrightarrow>
   unat (current_connection_request s) \<le> length (per_connection_events s) \<Longrightarrow>
   unat (current_connection_request s') \<le> length (per_connection_events s')"
proof (induction as arbitrary: s)
  case Nil
  then show ?case by simp
next
  case (Cons a as)
  then show ?case
    by (auto split: sum.splits dest: step_counter_le)
qed

lemma run_length_mono:
  "run fs s as = Inr s' \<Longrightarrow> length (per_connection_events s) \<le> length (per_connection_events s')"
proof (induction as arbitrary: s)
  case Nil
  then show ?case by simp
next
  case (Cons a as)
  then show ?case
    by (fastforce split: sum.splits dest: step_length_mono)
qed

lemma run_facade_inv:
  "run fs s as = Inr s' \<Longrightarrow> length (per_connection_events s') < 2 ^ 32 \<Longrightarrow>
   facade_inv s \<Longrightarrow> facade_inv s'"
proof (induction as arbitrary: s)
  case Nil
  then show ?case by simp
next
  case (Cons a as)
  from Cons.prems(1) obtain s1 where
    s1: "step fs s a = Inr s1" and rest: "run fs s1 as = Inr s'"
    by (auto split: sum.splits)
  from run_length_mono [OF rest] Cons.prems(2)
  have "length (per_connection_events s1) < 2 ^ 32" by simp
  with s1 Cons.prems(3) have "facade_inv s1" by (simp add: step_facade_inv)
  with Cons.IH rest Cons.prems(2) show ?case by blast
qed

lemma init_facade_inv: "facade_inv init_facade"
  by (simp add: facade_inv_def init_facade_def)

lemma success_rounds_wf:
  "\<forall>r\<in>set (map success_round xs). test_from_string (msg_address (fst r)) \<noteq> None"
  by (simp add: success_round_def test_request_def test_from_string_def)

lemma init_idle:
  "length (per_connection_events init_facade) = unat (current_connection_request init_facade)"
  by (simp add: init_facade_def)

lemma success_rounds_state:
  assumes "n \<le> 2 ^ 32"
  shows "\<exists>s'. run test_from_string init_facade (rounds (map success_round [0..<n])) = Inr s' \<and>
           length (per_connection_events s') = n \<and>
           current_connection_request s' = of_nat n \<and>
           (\<forall>i<n. queue_events (per_connection_events s' ! i) =
                [outcome_event (Succeeds test_peer i) (of_nat i)])"
proof -
  have b: "unat (current_connection_request init_facade) + length (map success_round [0..<n])
           \<le> 2 ^ 32"
    using assms by (simp add: init_facade_def)
  from rounds_state [OF success_rounds_wf init_idle b]
  show ?thesis
    by (simp add: init_facade_def success_round_def)
qed

lemma step_first_event_kept:
  "step fs s a = Inr s' \<Longrightarrow> i < length (per_connection_events s) \<Longrightarrow>
   queue_events (per_connection_events s ! i) = e # es \<Longrightarrow>
   i < length (per_connection_events s') \<and>
   (\<exists>es'. queue_events (per_connection_events s' ! i) = e # es')"
  by (cases a)
    (auto simp: facade_defs OnIncomingEvent_def nth_append nth_list_update Let_def
      split: option.splits if_splits list.splits sum.splits)

lemma run_first_event_kept:
  "run fs s as = Inr s' \<Longrightarrow> i < length (per_connection_events s) \<Longrightarrow>
   queue_events (per_connection_events s ! i) = e # es \<Longrightarrow>
   i < length (per_connection_events s') \<and>
   (\<exists>es'. queue_events (per_connection_events s' ! i) = e # es')"
proof (induction as arbitrary: s es)
  case Nil
  then show ?case by simp
next
  case (Cons a as)
  from Cons.prems(1) obtain s1 where
    s1: "step fs s a = Inr s1" and rest: "run fs s1 as = Inr s'"
    by (auto split: sum.splits)
  from step_first_event_kept [OF s1 Cons.prems(2,3)] obtain es1 where
    "i < length (per_connection_events s1)"
    "queue_events (per_connection_events s1 ! i) = e # es1"
    by blast
  with Cons.IH [OF rest] show ?case by blast
qed

lemma round_returns:
  assumes "fs (msg_address (fst r)) \<noteq> None"
    and "unat (current_connection_request s) \<le> length (per_connection_events s)"
  shows "\<exists>s'. run fs s (round_actions r) = Inr s'"
proof -
  obtain request out where r: "r = (request, out)" by (cases r)
  from assms(1) r obtain pa where pa: "fs (msg_address request) = Some pa" by auto
  show ?thesis
    using pa assms(2) unfolding r
    by (cases out)
      (auto simp: CreateConnection_def OnLeConnectSuccess_def OnLeConnectFail_def
        push_event_def update_connection_def Let_def)
qed

lemma rounds_return:
  assumes "\<forall>r\<in>set rs. fs (msg_address (fst r)) \<noteq> None"
    and "unat (current_connection_request s) \<le> length (per_connection_events s)"
  shows "\<exists>s'. run fs s (rounds rs) = Inr s'"
  using assms
proof (induction rs arbitrary: s)
  case Nil
  then show ?case by (simp add: rounds_def)
next
  case (Cons r rs)
  from Cons.prems have "fs (msg_address (fst r)) \<noteq> None" by simp
  from round_returns [of fs r s, OF this Cons.prems(2)] obtain s1 where
    s1: "run fs s (round_actions r) = Inr s1" by blast
  from run_counter_le [OF s1 Cons.prems(2)]
  have "unat (current_connection_request s1) \<le> length (per_connection_events s1)" .
  with Cons.IH [of s1] Cons.prems(1) obtain s' where "run fs s1 (rounds rs) = Inr s'"
    by auto
  with s1 show ?case by (simp add: rounds_def run_append)
qed

lemma to_handle_unat: "unat (to_handle seq) = ((unat seq + 0x10) mod 2 ^ 32) mod 0xe00"
proof -
  have lt: "unat ((seq + 0x10) mod 0xe00) < 0xe00"
    by (simp add: unat_mod)
  have "unat (to_handle seq) = unat ((seq + 0x10) mod 0xe00) mod 2 ^ 16"
    by (simp add: to_handle_def unsigned_ucast_eq take_bit_eq_mod)
  also have "\<dots> = unat ((seq + 0x10) mod 0xe00)"
    using lt by simp
  also have "\<dots> = ((unat seq + 0x10) mod 2 ^ 32) mod 0xe00"
    by (simp add: unat_mod unat_word_ariths)
  finally show ?thesis .
qed

lemma to_handle_of_nat:
  assumes "i + 0x10 < 2 ^ 32"
  shows "unat (to_handle (of_nat i)) = (i + 0x10) mod 0xe00"
proof -
  from assms have "i < 2 ^ 32" by simp
  then have "unat (of_nat i :: uint32) = i"
    by (simp add: unat_of_nat)
  with assms show ?thesis
    by (simp add: to_handle_unat)
qed

subsection \<open>Disconnect callbacks\<close>

lemma step_new_callback:
  "step fs s a = Inr s' \<Longrightarrow> disconnect_callback (connection_objects s' c) = Some e \<Longrightarrow>
   disconnect_callback (connection_objects s c) = Some e \<or>
   (unat e < length (per_connection_events s') \<and> acl_connections s' (to_handle e) \<noteq> None)"
  by (cases a)
    (auto simp: facade_defs emplace_def Let_def
      split: option.splits if_splits list.splits sum.splits)

lemma step_callbacks_inv:
  assumes "step fs s a = Inr s'" and "callbacks_inv s"
  shows "callbacks_inv s'"
  unfolding callbacks_inv_def
proof (intro allI impI)
  fix c e
  assume "disconnect_callback (connection_objects s' c) = Some e"
  from step_new_callback [OF assms(1) this]
  show "unat e < length (per_connection_events s') \<and> acl_connections s' (to_handle e) \<noteq> None"
  proof
    assume "disconnect_callback (connection_objects s c) = Some e"
    with assms(2) have "unat e < length (per_connection_events s)"
      and "acl_connections s (to_handle e) \<noteq> None"
      by (auto simp: callbacks_inv_def)
    with step_length_mono [OF assms(1)] step_registry_keeps [OF assms(1)]
    show ?thesis by fastforce
  qed
qed

lemma run_callbacks_inv:
  "run fs s as = Inr s' \<Longrightarrow> callbacks_inv s \<Longrightarrow> callbacks_inv s'"
proof (induction as arbitrary: s)
  case Nil
  then show ?case by simp
next
  case (Cons a as)
  then show ?case
    by (auto split: sum.splits dest: step_callbacks_inv)
qed

lemma init_callbacks_inv: "callbacks_inv init_facade"
  by (simp add: callbacks_inv_def init_facade_def new_connection_def)

subsection \<open>The concrete states\<close>

lemma first_request_admitted:
  "CreateConnection test_from_string init_facade test_request = Inr (RunLoop 0, outstanding_facade)"
  by (simp add: CreateConnection_def test_from_string_def test_request_def test_peer_def
      outstanding_facade_def init_facade_def Let_def)

lemma outstanding_reachable:
  "run test_from_string init_facade [CreateConnection_call test_request] = Inr outstanding_facade"
  by (simp add: first_request_admitted)

lemma outstanding_fields:
  "current_connection_request outstanding_facade = 0"
  "length (per_connection_events outstanding_facade) = 1"
  "acl_connections outstanding_facade = Map.empty"
  "create_le_connection_calls outstanding_facade = [test_peer]"
  by (simp_all add: outstanding_facade_def init_facade_def)

lemma first_success:
  "OnLeConnectSuccess outstanding_facade test_peer 0 = Inr connected_facade"
  by (simp add: OnLeConnectSuccess_def push_event_def update_connection_def emplace_def
      to_handle_def Let_def outstanding_facade_def init_facade_def connected_facade_def
      OnIncomingEvent_def new_queue_def test_peer_def)

lemma connected_reachable:
  "run test_from_string init_facade (round_actions (success_round 0)) = Inr connected_facade"
  by (simp add: success_round_def first_request_admitted first_success)

lemma reachable_counter_le:
  assumes "run fs init_facade as = Inr s"
  shows "unat (current_connection_request s) \<le> length (per_connection_events s)"
  using run_counter_le [OF assms] by (simp add: init_facade_def)

lemma test_request_wf: "test_from_string (msg_address test_request) \<noteq> None"
  by (simp add: test_from_string_def test_request_def)

subsection \<open>The registry after many requests\<close>

lemma success_round_registry:
  assumes "fs (msg_address request) \<noteq> None"
    and "length (per_connection_events s) = unat (current_connection_request s)"
  shows "registered (run fs s (round_actions (request, Succeeds a c))) h =
           emplace (acl_connections s) (to_handle (current_connection_request s)) c h"
proof -
  from assms(1) obtain pa where pa: "fs (msg_address request) = Some pa" by auto
  note idle = assms(2) [symmetric]
  show ?thesis
    using pa
    by (simp add: idle registered_def CreateConnection_def OnLeConnectSuccess_def
        push_event_def update_connection_def Let_def)
qed

lemma rounds_success_cons:
  "0 < n \<Longrightarrow> rounds (map success_round [0..<n]) =
     round_actions (success_round 0) @ rounds (map success_round [Suc 0..<n])"
  by (simp add: rounds_def upt_conv_Cons)

lemma first_entry_kept:
  assumes "0 < n" and "n \<le> 2 ^ 32"
  shows "registered (run test_from_string init_facade (rounds (map success_round [0..<n])))
           (to_handle 0) = Some 0"
proof -
  from success_rounds_state [OF assms(2)] obtain s' where
    run: "run test_from_string init_facade (rounds (map success_round [0..<n])) = Inr s'"
    by blast
  have "registered (run test_from_string init_facade (round_actions (success_round 0)))
          (to_handle 0) =
        emplace (acl_connections init_facade)
          (to_handle (current_connection_request init_facade)) 0 (to_handle 0)"
    unfolding success_round_def
    by (rule success_round_registry
        [where fs = test_from_string and request = test_request, OF test_request_wf init_idle])
  also have "\<dots> = Some 0"
    by (simp add: emplace_def init_facade_def)
  finally have "registered (run test_from_string init_facade (round_actions (success_round 0)))
          (to_handle 0) = Some 0" .
  then obtain s1 where
    run1: "run test_from_string init_facade (round_actions (success_round 0)) = Inr s1" and
    reg1: "acl_connections s1 (to_handle 0) = Some 0"
    by (auto simp: registered_def split: sum.splits)
  from run run1 have "run test_from_string s1 (rounds (map success_round [Suc 0..<n])) = Inr s'"
    by (simp add: rounds_success_cons [OF assms(1)] run_append)
  from run_registry_keeps [OF this reg1] show ?thesis
    by (simp add: run registered_def)
qed

subsection \<open>The sequence number after many requests\<close>

lemma admitted_after_rounds:
  assumes "n < 2 ^ 32"
  shows "\<exists>s. run test_from_string init_facade
               (rounds (map success_round [0..<n]) @ [CreateConnection_call test_request]) = Inr s \<and>
             current_connection_request s = of_nat n \<and>
             length (per_connection_events s) = Suc n"
proof -
  from assms have "n \<le> 2 ^ 32" by simp
  from success_rounds_state [OF this] obtain s0 where
    run0: "run test_from_string init_facade (rounds (map success_round [0..<n])) = Inr s0" and
    len0: "length (per_connection_events s0) = n" and
    cur0: "current_connection_request s0 = of_nat n"
    by blast
  from assms have un: "unat (of_nat n :: uint32) = n"
    by (simp add: unat_of_nat)
  have pa: "test_from_string (msg_address test_request) =
              Some [0xAA, 0xBB, 0xCC, 0xDD, 0xEE, 0xFF]"
    by (simp add: test_from_string_def test_request_def)
  show ?thesis
    by (simp add: run_append run0 CreateConnection_def pa len0 cur0 un Let_def)
qed

lemma resolved_after_rounds:
  assumes "n < 2 ^ 32" and "test_from_string (msg_address (fst r)) \<noteq> None"
  shows "\<exists>s. run test_from_string init_facade
               (rounds (map success_round [0..<n]) @ round_actions r) = Inr s \<and>
             current_connection_request s = of_nat (Suc n)"
proof -
  have wf: "\<forall>x\<in>set (map success_round [0..<n] @ [r]).
              test_from_string (msg_address (fst x)) \<noteq> None"
    using assms(2) success_rounds_wf [of "[0..<n]"] by auto
  have b: "unat (current_connection_request init_facade) +
             length (map success_round [0..<n] @ [r]) \<le> 2 ^ 32"
    using assms(1) by (simp add: init_facade_def)
  from rounds_state [OF wf init_idle b] obtain s where
    "run test_from_string init_facade (rounds (map success_round [0..<n] @ [r])) = Inr s" and
    "current_connection_request s =
       current_connection_request init_facade + of_nat (length (map success_round [0..<n] @ [r]))"
    by blast
  then show ?thesis
    by (simp add: rounds_def init_facade_def)
qed

section \<open>The claims\<close>

subsection \<open>C1: handles of requests issued one at a time\<close>

text \<open>
  Claim C1, as the code has it: let any number of outgoing requests with well-formed
  addresses be issued one at a time from the initial state, each resolved by its success or
  failure callback before the next is issued. If the \<open>n\<close>-th request succeeds and
  \<open>n \<le> 2 ^ 32 - 0x10\<close>, the handle in the first event on its stream is
  \<open>to_handle (n - 1)\<close>, which is \<open>(n - 1 + 0x10) mod 0xe00\<close>.
\<close>

theorem nth_request_handle:
  assumes "\<forall>r\<in>set rs. fs (msg_address (fst r)) \<noteq> None"
    and "0 < n" and "n \<le> length rs" and "n \<le> 2 ^ 32 - 0x10"
    and "snd (rs ! (n - 1)) = Succeeds a c"
  shows "delivered_handle (run fs init_facade (rounds rs)) n = Some (to_handle (of_nat (n - 1))) \<and>
         unat (to_handle (of_nat (n - 1))) = (n - 1 + 0x10) mod 0xe00"
proof -
  let ?xs = "take n rs" and ?ys = "drop n rs"
  have wfx: "\<forall>r\<in>set ?xs. fs (msg_address (fst r)) \<noteq> None"
    using assms(1) by (auto dest: in_set_takeD)
  have wfy: "\<forall>r\<in>set ?ys. fs (msg_address (fst r)) \<noteq> None"
    using assms(1) by (auto dest: in_set_dropD)
  have lenx: "length ?xs = n" using assms(3) by simp
  have b: "unat (current_connection_request init_facade) + length ?xs \<le> 2 ^ 32"
    using assms(4) by (simp add: init_facade_def lenx del: length_take)
  from rounds_state [OF wfx init_idle b] obtain s1 where
    run1: "run fs init_facade (rounds ?xs) = Inr s1" and
    len1: "length (per_connection_events s1) = n" and
    cur1: "current_connection_request s1 = of_nat n" and
    ev1: "\<forall>i<n. queue_events (per_connection_events s1 ! i) =
           [outcome_event (snd (?xs ! i)) (of_nat i)]"
    by (auto simp: init_facade_def lenx simp del: length_take)
  from assms(2) have i: "n - 1 < n" by simp
  with ev1 assms(5) have first: "queue_events (per_connection_events s1 ! (n - 1)) =
      outcome_event (Succeeds a c) (of_nat (n - 1)) # []"
    by simp
  have "unat (current_connection_request s1) \<le> length (per_connection_events s1)"
    using run_counter_le [OF run1] by (simp add: init_facade_def)
  from rounds_return [OF wfy this] obtain s2 where
    run2: "run fs s1 (rounds ?ys) = Inr s2" by blast
  have "rounds rs = rounds ?xs @ rounds ?ys"
    unfolding rounds_def by (simp flip: concat_append map_append)
  with run1 run2 have run: "run fs init_facade (rounds rs) = Inr s2"
    by (simp add: run_append)
  from i len1 have "n - 1 < length (per_connection_events s1)" by simp
  from run_first_event_kept [OF run2 this first] obtain es' where
    "n - 1 < length (per_connection_events s2)"
    "queue_events (per_connection_events s2 ! (n - 1)) =
       outcome_event (Succeeds a c) (of_nat (n - 1)) # es'"
    by blast
  with assms(2)
  have h: "delivered_handle (run fs init_facade (rounds rs)) n = Some (to_handle (of_nat (n - 1)))"
    by (simp add: run delivered_handle_def)
  from assms(2,4) have "n - 1 + 0x10 < 2 ^ 32" by simp
  with h show ?thesis by (simp add: to_handle_of_nat)
qed

text \<open>Two requests that both succeed: the second one is given the handle \<open>0x11\<close>.\<close>

theorem nth_request_handle_witness:
  "test_from_string (msg_address (fst (success_round 0))) \<noteq> None \<and>
   test_from_string (msg_address (fst (success_round 1))) \<noteq> None \<and>
   (0::nat) < 2 \<and> 2 \<le> length (map success_round [0, 1]) \<and> (2::nat) \<le> 2 ^ 32 - 0x10 \<and>
   snd (map success_round [0, 1] ! (2 - 1)) = Succeeds test_peer 1 \<and>
   delivered_handle (run test_from_string init_facade (rounds (map success_round [0, 1]))) 2 =
     Some 0x11"
proof -
  have "\<forall>r\<in>set (map success_round [0, 1]). test_from_string (msg_address (fst r)) \<noteq> None"
    by (rule success_rounds_wf)
  from nth_request_handle [OF this, of 2 test_peer 1]
  have "delivered_handle
          (run test_from_string init_facade (rounds (map success_round [0, 1]))) 2 = Some 0x11"
    by (simp add: success_round_def to_handle_def)
  moreover have "test_from_string (msg_address (fst (success_round 0))) \<noteq> None"
    and "test_from_string (msg_address (fst (success_round 1))) \<noteq> None"
    by (simp_all add: success_round_def test_from_string_def test_request_def)
  ultimately show ?thesis
    by (simp add: success_round_def)
qed

text \<open>
  Claim C1 as stated fails where the 32-bit sum wraps: the request number \<open>2 ^ 32 - 15\<close>
  has sequence number \<open>0xfffffff0\<close> and is given the handle 0, where
  \<open>(n - 1 + 0x10) mod 0xe00\<close> is 2048.
\<close>

theorem nth_request_handle_wraps:
  "delivered_handle
     (run test_from_string init_facade (rounds (map success_round [0..<4294967281]))) 4294967281
   = Some 0 \<and>
   (4294967281 - 1 + 0x10) mod 0xe00 = (2048 :: nat)"
proof -
  have "(4294967281::nat) \<le> 2 ^ 32" by simp
  from success_rounds_state [OF this] obtain s' where
    run: "run test_from_string init_facade (rounds (map success_round [0..<4294967281])) = Inr s'"
    and len: "length (per_connection_events s') = 4294967281"
    and ev: "\<forall>i<4294967281. queue_events (per_connection_events s' ! i) =
                [outcome_event (Succeeds test_peer i) (of_nat i)]"
    by blast
  from ev have "queue_events (per_connection_events s' ! 4294967280) =
      [outcome_event (Succeeds test_peer 4294967280) (of_nat 4294967280)]"
    by simp
  then have "delivered_handle (Inr s') 4294967281 = Some (to_handle 4294967280)"
    using len by (simp add: delivered_handle_def)
  then show ?thesis
    unfolding run by (simp add: to_handle_def)
qed

subsection \<open>C2: a request that is not admitted\<close>

text \<open>
  Claim C2, as the code has it: when \<^verbatim>\<open>CreateConnection\<close> is called with a well-formed
  address while the event queue of the previous request is still the current one
  (\<open>size() > current_connection_request_\<close>), the call returns RESOURCE_EXHAUSTED, appends no
  event queue, allocates no handle and leaves the registry and the sequence number as they
  were; the one change of state is that \<^verbatim>\<open>CreateLeConnection\<close> has been called for the
  rejected request.
\<close>

theorem rejected_request_still_connects:
  assumes "unat (current_connection_request s) < length (per_connection_events s)"
    and "fs (msg_address request) = Some peer_address"
  shows "CreateConnection fs s request =
           Inr (Status RESOURCE_EXHAUSTED,
                s\<lparr>create_le_connection_calls := create_le_connection_calls s @
                    [\<lparr>awt_address = peer_address,
                      awt_address_type = ucast (msg_address_type request)\<rparr>]\<rparr>)"
  using assms by (simp add: CreateConnection_def Let_def)

text \<open>A second request while the first one is outstanding.\<close>

theorem rejected_request_still_connects_witness:
  "unat (current_connection_request outstanding_facade) <
     length (per_connection_events outstanding_facade) \<and>
   test_from_string (msg_address test_request) = Some (awt_address test_peer) \<and>
   CreateConnection test_from_string outstanding_facade test_request =
     Inr (Status RESOURCE_EXHAUSTED,
          outstanding_facade\<lparr>create_le_connection_calls := [test_peer, test_peer]\<rparr>)"
proof -
  have h1: "unat (current_connection_request outstanding_facade) <
     length (per_connection_events outstanding_facade)"
    by (simp add: outstanding_fields)
  have h2: "test_from_string (msg_address test_request) = Some (awt_address test_peer)"
    by (simp add: test_from_string_def test_request_def test_peer_def)
  from rejected_request_still_connects
         [where fs = test_from_string and request = test_request, OF h1 h2] h1 h2
  show ?thesis
    by (simp add: outstanding_fields test_peer_def test_request_def)
qed

text \<open>
  Claim C2 as stated fails: the first request is admitted, the second one is rejected with
  RESOURCE_EXHAUSTED, and the connection manager has been asked to connect twice.
\<close>

theorem rejected_request_changes_state:
  "CreateConnection test_from_string init_facade test_request =
     Inr (RunLoop 0, outstanding_facade) \<and>
   CreateConnection test_from_string outstanding_facade test_request =
     Inr (Status RESOURCE_EXHAUSTED,
          outstanding_facade\<lparr>create_le_connection_calls := [test_peer, test_peer]\<rparr>) \<and>
   create_le_connection_calls
     (outstanding_facade\<lparr>create_le_connection_calls := [test_peer, test_peer]\<rparr>) \<noteq>
   create_le_connection_calls outstanding_facade"
  by (simp add: first_request_admitted)
    (simp add: CreateConnection_def test_from_string_def test_request_def test_peer_def
      outstanding_facade_def init_facade_def Let_def)

subsection \<open>C3: the handle allocator\<close>

text \<open>
  Claim C3, as the code has it: \<open>to_handle\<close> is total, and for every 32-bit sequence number
  \<open>seq\<close> it returns \<open>(seq + K) mod M\<close> with \<open>K = 0x10\<close>, \<open>M = 0xe00\<close> and the sum taken
  in 32-bit unsigned arithmetic. The handle lies in \<open>[0, M)\<close>; it is not always at
  least \<open>K\<close>.
\<close>

theorem to_handle_in_modulus:
  "unat (to_handle seq) = ((unat seq + 0x10) mod 2 ^ 32) mod 0xe00 \<and>
   unat (to_handle seq) < 0xe00"
  by (simp add: to_handle_unat)

text \<open>
  Claim C3 as stated fails: at sequence number \<open>0xdf0\<close> the handle is 0, outside
  \<open>[K, K + M)\<close>; at \<open>0xfffffff0\<close> the 32-bit sum wraps and the handle is 0, where
  \<open>(seq + K) mod M\<close> over the integers is 2048.
\<close>

theorem to_handle_below_K:
  "\<not> (0x10 \<le> unat (to_handle 0xdf0) \<and> unat (to_handle 0xdf0) < 0x10 + 0xe00) \<and>
   unat (to_handle 0xfffffff0) \<noteq> (unat (0xfffffff0 :: uint32) + 0x10) mod 0xe00"
  by (simp add: to_handle_def)

subsection \<open>C4: the connect-success callback\<close>

text \<open>
  Claim C4, as the code has it: on \<^verbatim>\<open>OnLeConnectSuccess\<close> with an outstanding request at
  sequence number \<open>seq\<close>, the facade inserts the connection into the registry under the
  handle \<open>to_handle seq\<close> unless the registry has an entry under that handle already
  (\<^verbatim>\<open>emplace\<close> then leaves the registry as it is), registers its callbacks
  on the connection, pushes a connection-complete event with status SUCCESS, handle
  \<open>to_handle seq\<close> and role MASTER into the event queue at index \<open>seq\<close>, and increments
  the sequence number in \<^verbatim>\<open>uint32_t\<close>. The handle of the first request is \<open>0x10\<close>.
\<close>

theorem connect_success_effect:
  assumes "unat (current_connection_request s) < length (per_connection_events s)"
  shows "OnLeConnectSuccess s a connection =
           Inr (s\<lparr>acl_connections :=
                    (case acl_connections s (to_handle (current_connection_request s)) of
                       None \<Rightarrow>
                         (acl_connections s)
                           (to_handle (current_connection_request s) \<mapsto> connection)
                     | Some old \<Rightarrow> acl_connections s),
                  connection_objects := (connection_objects s)
                    (connection := (connection_objects s connection)
                       \<lparr>dequeue_callback := Some (to_handle (current_connection_request s)),
                        disconnect_callback := Some (current_connection_request s),
                        management_callbacks := True\<rparr>),
                  per_connection_events :=
                    (per_connection_events s)[unat (current_connection_request s) :=
                       OnIncomingEvent
                         (per_connection_events s ! unat (current_connection_request s))
                         (LeConnectionComplete SUCCESS (to_handle (current_connection_request s))
                            MASTER (awt_address_type a) (awt_address a) 1 2 3 PPM_20)],
                  current_connection_request := current_connection_request s + 1\<rparr>) \<and>
         unat (current_connection_request s + 1) =
           (unat (current_connection_request s) + 1) mod 2 ^ 32 \<and>
         to_handle 0 = 0x10"
proof -
  have first: "to_handle 0 = 0x10"
    by (simp add: to_handle_def)
  have incr: "unat (current_connection_request s + 1) =
      (unat (current_connection_request s) + 1) mod 2 ^ 32"
    by (simp add: unat_word_ariths)
  from assms first incr show ?thesis
    by (simp add: OnLeConnectSuccess_def push_event_def update_connection_def emplace_def
        Let_def)
qed

text \<open>The first request of a fresh service succeeds.\<close>

theorem connect_success_effect_witness:
  "unat (current_connection_request outstanding_facade) <
     length (per_connection_events outstanding_facade) \<and>
   acl_connections outstanding_facade
     (to_handle (current_connection_request outstanding_facade)) = None \<and>
   OnLeConnectSuccess outstanding_facade test_peer 0 = Inr connected_facade \<and>
   acl_connections connected_facade 0x10 = Some 0 \<and>
   map queue_events (per_connection_events connected_facade) =
     [[LeConnectionComplete SUCCESS 0x10 MASTER 0 [0xAA, 0xBB, 0xCC, 0xDD, 0xEE, 0xFF]
         1 2 3 PPM_20]] \<and>
   current_connection_request connected_facade = 1"
proof -
  have h1: "unat (current_connection_request outstanding_facade) <
     length (per_connection_events outstanding_facade)"
    by (simp add: outstanding_fields)
  have h2: "acl_connections outstanding_facade
     (to_handle (current_connection_request outstanding_facade)) = None"
    by (simp add: outstanding_fields)
  from connect_success_effect [OF h1, of test_peer 0] h1 h2
  show ?thesis
    by (simp add: outstanding_facade_def init_facade_def connected_facade_def
      OnIncomingEvent_def new_queue_def test_peer_def emplace_def to_handle_def)
qed

text \<open>
  Claim C4 as stated fails once the handles wrap: after \<open>0xe00\<close> requests that succeeded
  with the connection objects \<open>0, \<dots>, 0xdff\<close>, the sequence number is \<open>0xe00\<close>; the next
  request succeeds with the connection object \<open>0xe00\<close> and its event carries the handle
  \<open>to_handle 0xe00 = 0x10\<close>, but \<^verbatim>\<open>emplace\<close> finds the entry of the first request and the
  registry still holds the connection object 0 under that handle. And at the sequence
  number \<open>0xffffffff\<close> the increment gives 0, not \<open>seq + 1\<close>.
\<close>

theorem stale_entry_kept:
  "sequence_number
     (run test_from_string init_facade (rounds (map success_round [0..<3584]))) = Some 0xe00 \<and>
   to_handle 0xe00 = 0x10 \<and>
   success_round 3584 = (test_request, Succeeds test_peer 3584) \<and>
   delivered_handle
     (run test_from_string init_facade (rounds (map success_round [0..<3585]))) 3585 =
     Some 0x10 \<and>
   registered
     (run test_from_string init_facade (rounds (map success_round [0..<3585]))) 0x10 = Some 0 \<and>
   sequence_number
     (run test_from_string init_facade
        (rounds (map success_round [0..<4294967295]) @ [CreateConnection_call test_request])) =
     Some 0xffffffff \<and>
   sequence_number
     (run test_from_string init_facade
        (rounds (map success_round [0..<4294967295]) @
         [CreateConnection_call test_request, ConnectSuccess test_peer 4294967295])) = Some 0"
proof -
  have "(3584::nat) \<le> 2 ^ 32" by simp
  from success_rounds_state [OF this]
  have a: "sequence_number
     (run test_from_string init_facade (rounds (map success_round [0..<3584]))) = Some 0xe00"
    by (auto simp: sequence_number_def)
  have le: "(3585::nat) \<le> 2 ^ 32" by simp
  from success_rounds_state [OF le] obtain s' where
    run: "run test_from_string init_facade (rounds (map success_round [0..<3585])) = Inr s'"
    and len: "length (per_connection_events s') = 3585"
    and ev: "\<forall>i<3585. queue_events (per_connection_events s' ! i) =
                [outcome_event (Succeeds test_peer i) (of_nat i)]"
    by blast
  from ev have "queue_events (per_connection_events s' ! 3584) =
      [outcome_event (Succeeds test_peer 3584) (of_nat 3584)]"
    by simp
  then have b: "delivered_handle
     (run test_from_string init_facade (rounds (map success_round [0..<3585]))) 3585 =
     Some 0x10"
    unfolding run using len by (simp add: delivered_handle_def to_handle_def)
  have h: "to_handle 0xe00 = 0x10" and h0: "to_handle 0 = 0x10"
    by (simp_all add: to_handle_def)
  from first_entry_kept [of 3585] have c: "registered
     (run test_from_string init_facade (rounds (map success_round [0..<3585]))) 0x10 = Some 0"
    by (simp add: h0)
  have d: "success_round 3584 = (test_request, Succeeds test_peer 3584)"
    by (simp add: success_round_def)
  have lt: "(4294967295::nat) < 2 ^ 32" by simp
  from admitted_after_rounds [OF lt]
  have e: "sequence_number
     (run test_from_string init_facade
        (rounds (map success_round [0..<4294967295]) @ [CreateConnection_call test_request])) =
     Some 0xffffffff"
    by (auto simp: sequence_number_def)
  have wf: "test_from_string
              (msg_address (fst (test_request, Succeeds test_peer 4294967295))) \<noteq> None"
    by (simp add: test_request_wf)
  from resolved_after_rounds [OF lt wf]
  have f: "sequence_number
     (run test_from_string init_facade
        (rounds (map success_round [0..<4294967295]) @
         [CreateConnection_call test_request, ConnectSuccess test_peer 4294967295])) = Some 0"
    by (auto simp: sequence_number_def)
  from a h d b c e f show ?thesis by blast
qed

subsection \<open>C5: unknown handles\<close>

text \<open>
  Claim C5, as the code has it: for every handle whose registry key (the 32-bit handle of
  the request narrowed to the 16-bit key type by \<^verbatim>\<open>find\<close>; for a handle below
  \<open>2 ^ 16\<close>, the handle itself) is not in the registry, \<^verbatim>\<open>SendAclData\<close> and
  \<^verbatim>\<open>Disconnect\<close> both return INVALID_ARGUMENT and leave the whole state as it was: the
  registry, the event queues, the sequence number and every connection object.
\<close>

theorem unknown_handle_rejected:
  assumes "acl_connections s (ucast handle) = None"
  shows "SendAclData s \<lparr>acl_handle = handle, acl_payload = payload\<rparr> =
           (Status INVALID_ARGUMENT, s) \<and>
         Disconnect s handle = (Status INVALID_ARGUMENT, s)"
  using assms by (simp add: SendAclData_def Disconnect_def)

text \<open>After the first connection the handle \<open>0x10\<close> is known, \<open>0x11\<close> is not.\<close>

theorem unknown_handle_rejected_witness:
  "acl_connections connected_facade (ucast (0x10 :: uint32)) = Some 0 \<and>
   acl_connections connected_facade (ucast (0x11 :: uint32)) = None \<and>
   SendAclData connected_facade \<lparr>acl_handle = 0x11, acl_payload = [1, 2, 3]\<rparr> =
     (Status INVALID_ARGUMENT, connected_facade) \<and>
   Disconnect connected_facade 0x11 = (Status INVALID_ARGUMENT, connected_facade)"
proof -
  have h: "acl_connections connected_facade (ucast (0x11 :: uint32)) = None"
    by (simp add: connected_facade_def)
  have h': "acl_connections connected_facade (ucast (0x10 :: uint32)) = Some 0"
    by (simp add: connected_facade_def)
  from unknown_handle_rejected [OF h, of "[1, 2, 3]"] h h'
  show ?thesis by simp
qed

text \<open>
  Claim C5 as stated fails for a handle that is no key of the registry but is narrowed to
  one: after the first connection the registry has the one key \<open>0x10\<close>; the handle
  \<open>0x10010\<close> is not that key, yet \<^verbatim>\<open>Disconnect\<close> returns OK and issues a disconnect on
  the connection object 0, and \<^verbatim>\<open>SendAclData\<close> returns OK and registers the enqueue
  callback on it.
\<close>

theorem narrowed_handle_accepted:
  "run test_from_string init_facade (round_actions (success_round 0)) = Inr connected_facade \<and>
   dom (acl_connections connected_facade) = {0x10} \<and>
   (0x10010 :: uint32) \<notin> ucast ` dom (acl_connections connected_facade) \<and>
   fst (Disconnect connected_facade 0x10010) = Status OK \<and>
   disconnect_requests (connection_objects (snd (Disconnect connected_facade 0x10010)) 0) =
     [REMOTE_USER_TERMINATED_CONNECTION] \<and>
   disconnect_requests (connection_objects connected_facade 0) = [] \<and>
   fst (SendAclData connected_facade \<lparr>acl_handle = 0x10010, acl_payload = [1, 2, 3]\<rparr>) =
     Status OK \<and>
   enqueue_callback
     (connection_objects
        (snd (SendAclData connected_facade \<lparr>acl_handle = 0x10010, acl_payload = [1, 2, 3]\<rparr>)) 0) =
     Some \<lparr>acl_handle = 0x10010, acl_payload = [1, 2, 3]\<rparr> \<and>
   enqueue_callback (connection_objects connected_facade 0) = None"
proof -
  have reg: "acl_connections connected_facade = [0x10 \<mapsto> 0]"
    by (simp add: connected_facade_def)
  have key: "acl_connections connected_facade (ucast (0x10010 :: uint32)) = Some 0"
    by (simp add: reg)
  have d: "dom (acl_connections connected_facade) = {0x10}"
    by (simp add: reg)
  have n: "(0x10010 :: uint32) \<notin> ucast ` dom (acl_connections connected_facade)"
    by (simp add: d)
  have objs: "connection_objects connected_facade 0 =
      new_connection\<lparr>dequeue_callback := Some 0x10, disconnect_callback := Some 0,
                      management_callbacks := True\<rparr>"
    by (simp add: connected_facade_def)
  have r: "fst (Disconnect connected_facade 0x10010) = Status OK"
    "disconnect_requests (connection_objects (snd (Disconnect connected_facade 0x10010)) 0) =
       [REMOTE_USER_TERMINATED_CONNECTION]"
    "disconnect_requests (connection_objects connected_facade 0) = []"
    using key by (simp_all add: Disconnect_def update_connection_def objs new_connection_def)
  have s: "fst (SendAclData connected_facade \<lparr>acl_handle = 0x10010, acl_payload = [1, 2, 3]\<rparr>) =
     Status OK"
    "enqueue_callback
     (connection_objects
        (snd (SendAclData connected_facade \<lparr>acl_handle = 0x10010, acl_payload = [1, 2, 3]\<rparr>)) 0) =
     Some \<lparr>acl_handle = 0x10010, acl_payload = [1, 2, 3]\<rparr>"
    "enqueue_callback (connection_objects connected_facade 0) = None"
    using key by (simp_all add: SendAclData_def update_connection_def objs new_connection_def)
  from connected_reachable d n r s show ?thesis by blast
qed

subsection \<open>C6: the connect-failure callback\<close>

text \<open>
  Claim C6, as the code has it: on \<^verbatim>\<open>OnLeConnectFail\<close> with an outstanding request at
  sequence number \<open>seq\<close>, the facade pushes a connection-complete event with the reported
  reason and the handle 0 into the event queue at index \<open>seq\<close> and increments the sequence
  number in \<^verbatim>\<open>uint32_t\<close>, to \<open>(seq + 1) mod 2 ^ 32\<close>; the registry and the connection
  objects are unchanged.
\<close>

theorem connect_fail_effect:
  assumes "unat (current_connection_request s) < length (per_connection_events s)"
  shows "OnLeConnectFail s address reason =
           Inr (s\<lparr>per_connection_events :=
                    (per_connection_events s)[unat (current_connection_request s) :=
                       OnIncomingEvent
                         (per_connection_events s ! unat (current_connection_request s))
                         (LeConnectionComplete reason 0 MASTER (awt_address_type address)
                            (awt_address address) 0 0 0 PPM_20)],
                  current_connection_request := current_connection_request s + 1\<rparr>) \<and>
         unat (current_connection_request s + 1) =
           (unat (current_connection_request s) + 1) mod 2 ^ 32 \<and>
         map_sum id acl_connections (OnLeConnectFail s address reason) =
           Inr (acl_connections s) \<and>
         map_sum id connection_objects (OnLeConnectFail s address reason) =
           Inr (connection_objects s)"
  using assms by (simp add: OnLeConnectFail_def push_event_def unat_word_ariths)

text \<open>The first request of a fresh service fails with reason \<open>0x3e\<close>.\<close>

theorem connect_fail_effect_witness:
  "unat (current_connection_request outstanding_facade) <
     length (per_connection_events outstanding_facade) \<and>
   OnLeConnectFail outstanding_facade test_peer 0x3e =
     Inr (outstanding_facade
            \<lparr>per_connection_events :=
               [\<lparr>queue_name = ''connection attempt '' @ to_string 0,
                 queue_events = [LeConnectionComplete 0x3e 0 MASTER 0
                    [0xAA, 0xBB, 0xCC, 0xDD, 0xEE, 0xFF] 0 0 0 PPM_20]\<rparr>],
             current_connection_request := 1\<rparr>) \<and>
   map_sum id acl_connections (OnLeConnectFail outstanding_facade test_peer 0x3e) =
     Inr Map.empty"
proof -
  have h: "unat (current_connection_request outstanding_facade) <
     length (per_connection_events outstanding_facade)"
    by (simp add: outstanding_fields)
  from connect_fail_effect [OF h, of test_peer "0x3e"] h
  show ?thesis
    by (simp add: outstanding_facade_def init_facade_def OnIncomingEvent_def new_queue_def
        test_peer_def)
qed

text \<open>
  Claim C6 as stated fails where the sequence number wraps: after \<open>2 ^ 32 - 1\<close> resolved
  requests and one more admitted request the sequence number is \<open>0xffffffff\<close> and the log
  has \<open>2 ^ 32\<close> queues; the failure callback leaves the sequence number 0, not
  \<open>seq + 1\<close>.
\<close>

theorem connect_fail_counter_wraps:
  "sequence_number
     (run test_from_string init_facade
        (rounds (map success_round [0..<4294967295]) @ [CreateConnection_call test_request])) =
     Some 0xffffffff \<and>
   log_length
     (run test_from_string init_facade
        (rounds (map success_round [0..<4294967295]) @ [CreateConnection_call test_request])) =
     Some 4294967296 \<and>
   sequence_number
     (run test_from_string init_facade
        (rounds (map success_round [0..<4294967295]) @
         [CreateConnection_call test_request, ConnectFail test_peer 0x3e])) = Some 0 \<and>
   unat (0 :: uint32) \<noteq> unat (0xffffffff :: uint32) + 1"
proof -
  have lt: "(4294967295::nat) < 2 ^ 32" by simp
  from admitted_after_rounds [OF lt]
  have a: "sequence_number
     (run test_from_string init_facade
        (rounds (map success_round [0..<4294967295]) @ [CreateConnection_call test_request])) =
     Some 0xffffffff"
    and b: "log_length
     (run test_from_string init_facade
        (rounds (map success_round [0..<4294967295]) @ [CreateConnection_call test_request])) =
     Some 4294967296"
    by (auto simp: sequence_number_def log_length_def)
  have wf: "test_from_string (msg_address (fst (test_request, Fails test_peer 0x3e))) \<noteq> None"
    by (simp add: test_request_wf)
  from resolved_after_rounds [OF lt wf]
  have c: "sequence_number
     (run test_from_string init_facade
        (rounds (map success_round [0..<4294967295]) @
         [CreateConnection_call test_request, ConnectFail test_peer 0x3e])) = Some 0"
    by (auto simp: sequence_number_def)
  have d: "unat (0 :: uint32) \<noteq> unat (0xffffffff :: uint32) + 1" by simp
  from a b c d show ?thesis by blast
qed

subsection \<open>C7: the disconnect callback\<close>

text \<open>
  Claim C7: in every state that the service can reach, for a connection whose disconnect
  callback was bound at sequence number \<open>entry\<close> (by \<^verbatim>\<open>OnLeConnectSuccess\<close>),
  \<^verbatim>\<open>on_disconnect\<close> pushes a disconnect event with handle \<open>to_handle entry\<close> and the given
  reason into the event queue at index \<open>entry\<close>, which exists; the shared queue of incoming
  data is unchanged, the registry is unchanged, and the registry has an entry under
  \<open>to_handle entry\<close> before and after.
\<close>

theorem disconnect_relay_effect:
  assumes "run fs init_facade as = Inr s"
    and "disconnect_callback (connection_objects s connection) = Some entry"
  shows "on_disconnect s connection entry code =
           Inr (s\<lparr>connection_objects := (connection_objects s)
                    (connection := (connection_objects s connection)
                       \<lparr>dequeue_callback := None, finished := True\<rparr>),
                  per_connection_events :=
                    (per_connection_events s)[unat entry :=
                       OnIncomingEvent (per_connection_events s ! unat entry)
                         (DisconnectPacket (to_handle entry) code)]\<rparr>) \<and>
         unat entry < length (per_connection_events s) \<and>
         map_sum id pending_acl_data (on_disconnect s connection entry code) =
           Inr (pending_acl_data s) \<and>
         map_sum id acl_connections (on_disconnect s connection entry code) =
           Inr (acl_connections s) \<and>
         acl_connections s (to_handle entry) \<noteq> None"
proof -
  from run_callbacks_inv [OF assms(1) init_callbacks_inv] assms(2)
  have "unat entry < length (per_connection_events s)"
    and "acl_connections s (to_handle entry) \<noteq> None"
    by (auto simp: callbacks_inv_def)
  then show ?thesis
    by (simp add: on_disconnect_def push_event_def update_connection_def Let_def)
qed

text \<open>The first connection is disconnected with reason \<open>0x13\<close>.\<close>

theorem disconnect_relay_effect_witness:
  "run test_from_string init_facade (round_actions (success_round 0)) = Inr connected_facade \<and>
   disconnect_callback (connection_objects connected_facade 0) = Some 0 \<and>
   map_sum id (map queue_events \<circ> per_connection_events)
       (on_disconnect connected_facade 0 0 0x13) =
     Inr [[LeConnectionComplete SUCCESS 0x10 MASTER 0 [0xAA, 0xBB, 0xCC, 0xDD, 0xEE, 0xFF]
             1 2 3 PPM_20,
           DisconnectPacket 0x10 0x13]] \<and>
   map_sum id pending_acl_data (on_disconnect connected_facade 0 0 0x13) = Inr [] \<and>
   acl_connections connected_facade (to_handle 0) = Some 0"
proof -
  have h: "disconnect_callback (connection_objects connected_facade 0) = Some 0"
    by (simp add: connected_facade_def)
  from disconnect_relay_effect [OF connected_reachable h, of "0x13"] connected_reachable h
  show ?thesis
    by (simp add: connected_facade_def outstanding_facade_def init_facade_def
        OnIncomingEvent_def to_handle_def)
qed

subsection \<open>C8: the connect primitive is called before the admission check\<close>

text \<open>
  Claim C8: in every state that the service can reach, a call of \<^verbatim>\<open>CreateConnection\<close>
  with a well-formed address returns, and \<^verbatim>\<open>CreateLeConnection\<close> has been called exactly
  once more, for the peer of the request, whether the request was admitted or not; the call
  is rejected with RESOURCE_EXHAUSTED exactly when a request is outstanding.
\<close>

theorem create_connection_always_connects:
  assumes "run fs init_facade as = Inr s"
    and "fs (msg_address request) = Some peer_address"
  shows "\<exists>r s'. CreateConnection fs s request = Inr (r, s') \<and>
           create_le_connection_calls s' = create_le_connection_calls s @
             [\<lparr>awt_address = peer_address,
               awt_address_type = ucast (msg_address_type request)\<rparr>] \<and>
           (r = Status RESOURCE_EXHAUSTED \<longleftrightarrow>
              unat (current_connection_request s) < length (per_connection_events s))"
  using reachable_counter_le [OF assms(1)] assms(2)
  by (auto simp: CreateConnection_def Let_def)

text \<open>A second request while the first one is outstanding is rejected and has called
  the connection manager.\<close>

theorem create_connection_always_connects_witness:
  "run test_from_string init_facade [CreateConnection_call test_request] =
     Inr outstanding_facade \<and>
   test_from_string (msg_address test_request) = Some (awt_address test_peer) \<and>
   unat (current_connection_request outstanding_facade) <
     length (per_connection_events outstanding_facade) \<and>
   map_sum id fst (CreateConnection test_from_string outstanding_facade test_request) =
     Inr (Status RESOURCE_EXHAUSTED) \<and>
   map_sum id (create_le_connection_calls \<circ> snd)
     (CreateConnection test_from_string outstanding_facade test_request) =
     Inr (create_le_connection_calls outstanding_facade @ [test_peer])"
proof -
  have h2: "test_from_string (msg_address test_request) = Some (awt_address test_peer)"
    by (simp add: test_from_string_def test_request_def test_peer_def)
  have h3: "unat (current_connection_request outstanding_facade) <
     length (per_connection_events outstanding_facade)"
    by (simp add: outstanding_fields)
  from create_connection_always_connects [OF outstanding_reachable h2] h3
  have "map_sum id fst (CreateConnection test_from_string outstanding_facade test_request) =
     Inr (Status RESOURCE_EXHAUSTED) \<and>
   map_sum id (create_le_connection_calls \<circ> snd)
     (CreateConnection test_from_string outstanding_facade test_request) =
     Inr (create_le_connection_calls outstanding_facade @ [test_peer])"
    by (auto simp: test_peer_def test_request_def)
  with outstanding_reachable h2 h3 show ?thesis by blast
qed

subsection \<open>C9: the length of the request event log\<close>

text \<open>
  Claim C9, as the code has it: in every state that the service can reach and in which the
  request event log has fewer than \<open>2 ^ 32\<close> queues, the length of the log is the sequence
  number or the sequence number plus one. An admission (\<^verbatim>\<open>CreateConnection\<close> or
  \<^verbatim>\<open>FetchIncomingConnection\<close>) that changes the length moves it from the sequence number
  to the sequence number plus one; \<^verbatim>\<open>OnLeConnectSuccess\<close> and \<^verbatim>\<open>OnLeConnectFail\<close> run
  from the sequence number plus one and restore equality by incrementing the sequence number.
\<close>

theorem request_log_length_invariant:
  assumes "run fs init_facade as = Inr s"
    and "length (per_connection_events s) < 2 ^ 32"
  shows "facade_inv s \<and>
    (\<forall>request r s'. CreateConnection fs s request = Inr (r, s') \<and>
        length (per_connection_events s') \<noteq> length (per_connection_events s) \<longrightarrow>
        length (per_connection_events s) = unat (current_connection_request s) \<and>
        length (per_connection_events s') = unat (current_connection_request s') + 1) \<and>
    (\<forall>r s'. FetchIncomingConnection s = Inr (r, s') \<and>
        length (per_connection_events s') \<noteq> length (per_connection_events s) \<longrightarrow>
        length (per_connection_events s) = unat (current_connection_request s) \<and>
        length (per_connection_events s') = unat (current_connection_request s') + 1) \<and>
    (\<forall>a c s'. OnLeConnectSuccess s a c = Inr s' \<longrightarrow>
        length (per_connection_events s) = unat (current_connection_request s) + 1 \<and>
        current_connection_request s' = current_connection_request s + 1 \<and>
        length (per_connection_events s') = unat (current_connection_request s')) \<and>
    (\<forall>a e s'. OnLeConnectFail s a e = Inr s' \<longrightarrow>
        length (per_connection_events s) = unat (current_connection_request s) + 1 \<and>
        current_connection_request s' = current_connection_request s + 1 \<and>
        length (per_connection_events s') = unat (current_connection_request s'))"
proof -
  have inv: "facade_inv s"
    using run_facade_inv [OF assms init_facade_inv] .
  have admit: "\<forall>request r s'. CreateConnection fs s request = Inr (r, s') \<and>
        length (per_connection_events s') \<noteq> length (per_connection_events s) \<longrightarrow>
        length (per_connection_events s) = unat (current_connection_request s) \<and>
        length (per_connection_events s') = unat (current_connection_request s') + 1"
    by (auto simp: CreateConnection_def Let_def split: option.splits if_splits)
  have fetch: "\<forall>r s'. FetchIncomingConnection s = Inr (r, s') \<and>
        length (per_connection_events s') \<noteq> length (per_connection_events s) \<longrightarrow>
        length (per_connection_events s) = unat (current_connection_request s) \<and>
        length (per_connection_events s') = unat (current_connection_request s') + 1"
    by (auto simp: FetchIncomingConnection_def Let_def split: if_splits)
  have succ: "unat (current_connection_request s + 1) = unat (current_connection_request s) + 1"
    if "unat (current_connection_request s) < length (per_connection_events s)"
    using that assms(2) by (simp add: unat_succ_eq)
  have success: "\<forall>a c s'. OnLeConnectSuccess s a c = Inr s' \<longrightarrow>
        length (per_connection_events s) = unat (current_connection_request s) + 1 \<and>
        current_connection_request s' = current_connection_request s + 1 \<and>
        length (per_connection_events s') = unat (current_connection_request s')"
    using inv succ
    by (auto simp: facade_inv_def OnLeConnectSuccess_def push_event_def update_connection_def
        Let_def split: if_splits)
  have fail: "\<forall>a e s'. OnLeConnectFail s a e = Inr s' \<longrightarrow>
        length (per_connection_events s) = unat (current_connection_request s) + 1 \<and>
        current_connection_request s' = current_connection_request s + 1 \<and>
        length (per_connection_events s') = unat (current_connection_request s')"
    using inv succ
    by (auto simp: facade_inv_def OnLeConnectFail_def push_event_def Let_def split: if_splits)
  from inv admit fetch success fail show ?thesis by blast
qed

text \<open>The first request is admitted and then succeeds.\<close>

theorem request_log_length_invariant_witness:
  "run test_from_string init_facade [CreateConnection_call test_request] =
     Inr outstanding_facade \<and>
   length (per_connection_events outstanding_facade) < 2 ^ 32 \<and>
   facade_inv outstanding_facade \<and>
   OnLeConnectSuccess outstanding_facade test_peer 0 = Inr connected_facade \<and>
   length (per_connection_events outstanding_facade) =
     unat (current_connection_request outstanding_facade) + 1 \<and>
   length (per_connection_events connected_facade) =
     unat (current_connection_request connected_facade) \<and>
   run test_from_string init_facade [] = Inr init_facade \<and>
   length (per_connection_events init_facade) < 2 ^ 32 \<and>
   CreateConnection test_from_string init_facade test_request =
     Inr (RunLoop 0, outstanding_facade) \<and>
   length (per_connection_events outstanding_facade) \<noteq>
     length (per_connection_events init_facade) \<and>
   length (per_connection_events init_facade) =
     unat (current_connection_request init_facade)"
proof -
  have h: "length (per_connection_events outstanding_facade) < 2 ^ 32"
    by (simp add: outstanding_fields)
  from request_log_length_invariant [OF outstanding_reachable h] first_success
    outstanding_reachable h
  have a: "run test_from_string init_facade [CreateConnection_call test_request] =
     Inr outstanding_facade \<and>
   length (per_connection_events outstanding_facade) < 2 ^ 32 \<and>
   facade_inv outstanding_facade \<and>
   OnLeConnectSuccess outstanding_facade test_peer 0 = Inr connected_facade \<and>
   length (per_connection_events outstanding_facade) =
     unat (current_connection_request outstanding_facade) + 1 \<and>
   length (per_connection_events connected_facade) =
     unat (current_connection_request connected_facade)"
    by blast
  have r0: "run test_from_string init_facade [] = Inr init_facade" by simp
  have h0: "length (per_connection_events init_facade) < 2 ^ 32"
    by (simp add: init_facade_def)
  have ne: "length (per_connection_events outstanding_facade) \<noteq>
     length (per_connection_events init_facade)"
    by (simp add: outstanding_fields init_facade_def)
  from request_log_length_invariant [OF r0 h0] first_request_admitted ne
  have b: "length (per_connection_events init_facade) =
     unat (current_connection_request init_facade)"
    by blast
  from a r0 h0 first_request_admitted ne b show ?thesis by blast
qed

text \<open>
  Claim C9 as stated fails where the 32-bit sequence number wraps: after \<open>2 ^ 32\<close> requests
  that succeeded, the log has \<open>2 ^ 32\<close> queues and the sequence number is 0.
\<close>

theorem request_log_length_wraps:
  "map_sum id facade_inv
     (run test_from_string init_facade (rounds (map success_round [0..<4294967296]))) =
   Inr False"
proof -
  have "(4294967296::nat) \<le> 2 ^ 32" by simp
  from success_rounds_state [OF this] obtain s' where
    run: "run test_from_string init_facade (rounds (map success_round [0..<4294967296])) = Inr s'"
    and len: "length (per_connection_events s') = 4294967296"
    and cur: "current_connection_request s' = of_nat 4294967296"
    by blast
  from cur have "current_connection_request s' = 0" by simp
  with len have "\<not> facade_inv s'" by (simp add: facade_inv_def)
  then show ?thesis by (simp add: run)
qed

subsection \<open>C10: the indexed accesses of the callbacks\<close>

text \<open>
  Claim C10: the access \<open>per_connection_events_[current_connection_request_]\<close> of
  \<^verbatim>\<open>OnLeConnectSuccess\<close> and \<^verbatim>\<open>OnLeConnectFail\<close> is within bounds exactly when the log is
  longer than the sequence number, and the access \<open>per_connection_events_[entry]\<close> of
  \<^verbatim>\<open>on_disconnect\<close> exactly when the log is longer than \<open>entry\<close>; otherwise the callback
  indexes past the end of the vector.
\<close>

theorem callbacks_index_in_bounds:
  "((\<exists>s'. OnLeConnectSuccess s a connection = Inr s') \<longleftrightarrow>
      unat (current_connection_request s) < length (per_connection_events s)) \<and>
   (OnLeConnectSuccess s a connection = Inl OutOfBounds \<longleftrightarrow>
      length (per_connection_events s) \<le> unat (current_connection_request s)) \<and>
   ((\<exists>s'. OnLeConnectFail s a reason = Inr s') \<longleftrightarrow>
      unat (current_connection_request s) < length (per_connection_events s)) \<and>
   (OnLeConnectFail s a reason = Inl OutOfBounds \<longleftrightarrow>
      length (per_connection_events s) \<le> unat (current_connection_request s)) \<and>
   ((\<exists>s'. on_disconnect s connection entry code = Inr s') \<longleftrightarrow>
      unat entry < length (per_connection_events s)) \<and>
   (on_disconnect s connection entry code = Inl OutOfBounds \<longleftrightarrow>
      length (per_connection_events s) \<le> unat entry)"
  by (simp add: OnLeConnectSuccess_def OnLeConnectFail_def on_disconnect_def push_event_def
      update_connection_def Let_def)

text \<open>A fresh service has no outstanding request; after the first request was admitted it
  has one.\<close>

theorem callbacks_index_in_bounds_witness:
  "length (per_connection_events init_facade) \<le> unat (current_connection_request init_facade) \<and>
   OnLeConnectSuccess init_facade test_peer 0 = Inl OutOfBounds \<and>
   OnLeConnectFail init_facade test_peer 0x3e = Inl OutOfBounds \<and>
   on_disconnect init_facade 0 0 0x13 = Inl OutOfBounds \<and>
   unat (current_connection_request outstanding_facade) <
     length (per_connection_events outstanding_facade) \<and>
   (\<exists>s'. OnLeConnectSuccess outstanding_facade test_peer 0 = Inr s') \<and>
   (\<exists>s'. OnLeConnectFail outstanding_facade test_peer 0x3e = Inr s') \<and>
   (\<exists>s'. on_disconnect outstanding_facade 0 0 0x13 = Inr s')"
proof -
  have h: "length (per_connection_events init_facade) \<le>
           unat (current_connection_request init_facade)"
    by (simp add: init_facade_def)
  have h': "unat (current_connection_request outstanding_facade) <
     length (per_connection_events outstanding_facade)"
    by (simp add: outstanding_fields)
  from callbacks_index_in_bounds [of init_facade test_peer 0 "0x3e" 0 "0x13"] h
  have a: "OnLeConnectSuccess init_facade test_peer 0 = Inl OutOfBounds \<and>
   OnLeConnectFail init_facade test_peer 0x3e = Inl OutOfBounds \<and>
   on_disconnect init_facade 0 0 0x13 = Inl OutOfBounds"
    by (simp add: init_facade_def)
  from callbacks_index_in_bounds [of outstanding_facade test_peer 0 "0x3e" 0 "0x13"] h'
  have b: "(\<exists>s'. OnLeConnectSuccess outstanding_facade test_peer 0 = Inr s') \<and>
   (\<exists>s'. OnLeConnectFail outstanding_facade test_peer 0x3e = Inr s') \<and>
   (\<exists>s'. on_disconnect outstanding_facade 0 0 0x13 = Inr s')"
    by (simp add: outstanding_fields)
  from h h' a b show ?thesis by blast
qed

end
